theory Spec2Isabelle
  imports Main
begin

section \<open>Data model of the editor store (stores/editorStore.ts, types)\<close>

text \<open>
  Values that arrive as JSON (the mask payloads) are kept as parsed JSON values: the
  store never reads inside a mask. A number keeps its lexeme.

  The records follow the interfaces of the front end's types. Frame indices and counts
  are natural numbers, pixel coordinates and labels integers. Fields that no action of
  the store reads or compares (time stamps, URLs, optional descriptions) are left out.
\<close>

datatype json =
    JNull
  | JBool bool
  | JNum string
  | JStr string
  | JArr "json list"
  | JObj "(string \<times> json) list"

record CanvasPoint =
  point_x :: int
  point_y :: int
  point_label :: int

record FrameMasks =
  frame_idx :: nat
  mask_list :: "json list"

record GalleryVideo =
  video_id :: string
  video_name :: string
  video_path :: string

record ChatMessage =
  message_id :: string
  message_from_bot :: bool
  message_content :: string

record VideoFrame =
  frame_index :: nat
  frame_timestamp :: nat

record ModelInstructions =
  instructed_objects :: "string list"
  instructed_effects :: "(string \<times> string) list"
  tracking :: bool

record editor_state =
  isLoading :: bool
  currentVideo :: "GalleryVideo option"
  sessionId :: "string option"
  chatMessages :: "ChatMessage list"
  currentFrame :: nat
  points :: "nat \<rightharpoonup> CanvasPoint list"
  masks :: "nat \<rightharpoonup> FrameMasks"
  videoFrames :: "VideoFrame list"
  isProcessing :: bool
  processingProgress :: nat
  instructions :: "ModelInstructions option"

text \<open>
  The error taxonomy of the specification, and \<open>OtherError\<close> for an exception that is
  none of them. The store's actions are async functions; the promise an action returns
  is either fulfilled or rejected with an error.
\<close>

datatype error =
    VideoNotFound
  | SessionNotFound
  | MalformedMask
  | SegmentationUnavailable
  | PropagationInterrupted nat
  | SessionBusy
  | TooManyObjects
  | OtherError

datatype outcome = Fulfilled | Rejected error

text \<open>The requests videoService sends (api/videoService.ts), and the console.error calls.\<close>

datatype request =
    DeleteSession string
  | PostPoints string nat "(int \<times> int) list" "int list"
  | PostPropagate string nat

datatype log_entry =
    FailedToEndSession
  | FailedToAddPoint
  | ErrorParsingPropagationResult
  | ErrorPropagatingMasks

record effects =
  promise :: outcome
  requests :: "request list"
  console :: "log_entry list"

definition quiet :: effects where
  "quiet = \<lparr>promise = Fulfilled, requests = [], console = []\<rparr>"

text \<open>An awaited service call either resolves with a value or throws.\<close>

datatype 'a reply = Resolves 'a | Throws

text \<open>
  \<open>!sessionId.value\<close>: null and the empty string are both falsy.
\<close>

definition truthy :: "string option \<Rightarrow> bool" where
  "truthy sid = (case sid of None \<Rightarrow> False | Some v \<Rightarrow> v \<noteq> [])"

section \<open>resetEditorState and endSession\<close>

definition resetEditorState :: "editor_state \<Rightarrow> editor_state" where
  "resetEditorState s =
     s\<lparr>points := Map.empty,
       masks := Map.empty,
       currentFrame := 0,
       videoFrames := [],
       chatMessages := [],
       isProcessing := False,
       processingProgress := 0,
       instructions := None\<rparr>"

text \<open>
  endSession: the guard returns at once; otherwise the DELETE request is sent, a failure
  is caught and logged, and the finally block clears the session whatever happened.
\<close>

definition endSession :: "unit reply \<Rightarrow> editor_state \<Rightarrow> effects \<times> editor_state" where
  "endSession backend s =
     (case sessionId s of
        None \<Rightarrow> (quiet, s)
      | Some sid \<Rightarrow>
          if sid = [] then (quiet, s)
          else
            (\<lparr>promise = Fulfilled,
              requests = [DeleteSession sid],
              console = (case backend of Resolves _ \<Rightarrow> [] | Throws \<Rightarrow> [FailedToEndSession])\<rparr>,
             resetEditorState (s\<lparr>sessionId := None, currentVideo := None\<rparr>)))"

section \<open>addPoint\<close>

text \<open>
  addPoint runs in two uninterrupted parts, separated by the await of
  videoService.addPoints. The first part stores the point and, with a session, sends the
  request built from all points of the frame; the second part runs when the reply arrives
  and stores the masks under the frame index captured by the first part.
\<close>

definition frame_points :: "editor_state \<Rightarrow> nat \<Rightarrow> CanvasPoint list" where
  "frame_points s frameIdx = (case points s frameIdx of None \<Rightarrow> [] | Some ps \<Rightarrow> ps)"

definition addPoint_begin :: "CanvasPoint \<Rightarrow> editor_state \<Rightarrow> request option \<times> editor_state" where
  "addPoint_begin point s =
     (let frameIdx = currentFrame s;
          ps = frame_points s frameIdx @ [point];
          s1 = s\<lparr>points := (points s)(frameIdx \<mapsto> ps)\<rparr>
      in case sessionId s1 of
           None \<Rightarrow> (None, s1)
         | Some sid \<Rightarrow>
             if sid = [] then (None, s1)
             else (Some (PostPoints sid frameIdx
                           (map (\<lambda>p. (point_x p, point_y p)) ps)
                           (map point_label ps)), s1))"

definition store_masks :: "nat \<Rightarrow> json list \<Rightarrow> editor_state \<Rightarrow> editor_state" where
  "store_masks frameIdx ms s =
     s\<lparr>masks := (masks s)(frameIdx \<mapsto>
         (case masks s frameIdx of
            None \<Rightarrow> \<lparr>frame_idx = frameIdx, mask_list = ms\<rparr>
          | Some fm \<Rightarrow> fm\<lparr>mask_list := ms\<rparr>))\<rparr>"

definition addPoint_end :: "nat \<Rightarrow> json list reply \<Rightarrow> editor_state \<Rightarrow> log_entry list \<times> editor_state" where
  "addPoint_end frameIdx result s =
     (case result of
        Resolves ms \<Rightarrow> ([], store_masks frameIdx ms s)
      | Throws \<Rightarrow> ([FailedToAddPoint], s))"

text \<open>addPoint with nothing else running between the request and its reply.\<close>

definition addPoint :: "json list reply \<Rightarrow> CanvasPoint \<Rightarrow> editor_state \<Rightarrow> effects \<times> editor_state" where
  "addPoint result point s =
     (case addPoint_begin point s of
        (None, s1) \<Rightarrow> (quiet, s1)
      | (Some req, s1) \<Rightarrow>
          (case addPoint_end (currentFrame s) result s1 of
             (logged, s2) \<Rightarrow>
               (\<lparr>promise = Fulfilled, requests = [req], console = logged\<rparr>, s2)))"

section \<open>propagateMasks\<close>

text \<open>
  Text of a chunk: \<open>text.trim().split('\n')\<close>. Chunks are ASCII text, on which
  TextDecoder is the identity; the white space trim removes is then tab, line feed,
  vertical tab, form feed, carriage return and space.
\<close>

definition is_space :: "char \<Rightarrow> bool" where
  "is_space c = (c = CHR 0x09 \<or> c = CHR 0x0A \<or> c = CHR 0x0B \<or> c = CHR 0x0C
                 \<or> c = CHR 0x0D \<or> c = CHR 0x20)"

definition trim :: "string \<Rightarrow> string" where
  "trim t = rev (dropWhile is_space (rev (dropWhile is_space t)))"

fun split :: "char \<Rightarrow> string \<Rightarrow> string list" where
  "split d [] = [[]]"
| "split d (c # cs) =
     (if c = d then [] # split d cs
      else (case split d cs of [] \<Rightarrow> [[c]] | w # ws \<Rightarrow> (c # w) # ws))"

definition chunk_lines :: "string \<Rightarrow> string list" where
  "chunk_lines t = split (CHR 0x0A) (trim t)"

text \<open>
  The reply of videoService.propagateInVideo: the request fails (fetch rejects, or the
  response is not ok), or a reader is returned. A reader delivers the chunks one by one
  and then either reports done or throws (the connection broke). The runs modelled are
  those in which the reader ends in one of these two ways after finitely many chunks,
  with no other action of the store running in between.
\<close>

datatype stream_end = Closed | Broken

datatype propagate_reply = RequestFailed | Reader "string list" stream_end

text \<open>
  Two platform functions are parameters of the model:
  \<^item> \<open>parse\<close> is \<open>JSON.parse(line) as FrameMasks\<close>: None when JSON.parse throws;
  \<^item> \<open>pct r t\<close> is \<open>Math.floor((r / t) * 100)\<close>, computed by JavaScript in binary
    floating point.
\<close>

type_synonym parser = "string \<Rightarrow> FrameMasks option"
type_synonym percent = "nat \<Rightarrow> nat \<Rightarrow> nat"

text \<open>
  The loop variables are receivedFrames and the store. \<open>seen\<close> records the store after
  each frame is applied, in order: what an observer of the store sees during the run.
\<close>

record loop_vars =
  receivedFrames :: nat
  store :: editor_state
  seen :: "editor_state list"
  parse_errors :: "log_entry list"

definition apply_line :: "parser \<Rightarrow> percent \<Rightarrow> nat \<Rightarrow> string \<Rightarrow> loop_vars \<Rightarrow> loop_vars" where
  "apply_line parse pct totalFrames line v =
     (case parse line of
        None \<Rightarrow> v\<lparr>parse_errors := parse_errors v @ [ErrorParsingPropagationResult]\<rparr>
      | Some data \<Rightarrow>
          (let r = receivedFrames v + 1;
               s = (store v)\<lparr>masks := (masks (store v))(frame_idx data \<mapsto> data),
                             processingProgress := min 100 (pct r totalFrames)\<rparr>
           in v\<lparr>receivedFrames := r, store := s, seen := seen v @ [s]\<rparr>))"

fun for_lines :: "parser \<Rightarrow> percent \<Rightarrow> nat \<Rightarrow> string list \<Rightarrow> loop_vars \<Rightarrow> loop_vars" where
  "for_lines parse pct totalFrames [] v = v"
| "for_lines parse pct totalFrames (line # ls) v =
     for_lines parse pct totalFrames ls (apply_line parse pct totalFrames line v)"

fun read_loop :: "parser \<Rightarrow> percent \<Rightarrow> nat \<Rightarrow> string list \<Rightarrow> loop_vars \<Rightarrow> loop_vars" where
  "read_loop parse pct totalFrames [] v = v"
| "read_loop parse pct totalFrames (chunk # cs) v =
     read_loop parse pct totalFrames cs
       (for_lines parse pct totalFrames (chunk_lines chunk) v)"

definition total_frames :: "editor_state \<Rightarrow> nat" where
  "total_frames s = (if length (videoFrames s) = 0 then 100 else length (videoFrames s))"

definition finish :: "editor_state \<Rightarrow> editor_state" where
  "finish s = s\<lparr>isProcessing := False, processingProgress := 100\<rparr>"

text \<open>
  The result of a run: the effects, the stores observed during the run (after the
  initial reset of the progress, after each applied frame, after the finally block), and
  the final store.
\<close>

record run =
  run_effects :: effects
  observed :: "editor_state list"
  final :: editor_state

definition propagateMasks ::
  "parser \<Rightarrow> percent \<Rightarrow> propagate_reply \<Rightarrow> nat \<Rightarrow> editor_state \<Rightarrow> run" where
  "propagateMasks parse pct reply startFrame s =
     (if \<not> truthy (sessionId s) \<or> frame_points s startFrame = []
      then \<lparr>run_effects = quiet, observed = [], final = s\<rparr>
      else
        (let s0 = s\<lparr>isProcessing := True, processingProgress := 0\<rparr>;
             req = PostPropagate (case sessionId s of None \<Rightarrow> [] | Some sid \<Rightarrow> sid) startFrame
         in case reply of
              RequestFailed \<Rightarrow>
                \<lparr>run_effects = \<lparr>promise = Fulfilled, requests = [req],
                                 console = [ErrorPropagatingMasks]\<rparr>,
                 observed = [s0, finish s0],
                 final = finish s0\<rparr>
            | Reader chunks ending \<Rightarrow>
                (let v = read_loop parse pct (total_frames s0) chunks
                           \<lparr>receivedFrames = 0, store = s0, seen = [], parse_errors = []\<rparr>
                 in \<lparr>run_effects =
                        \<lparr>promise = Fulfilled, requests = [req],
                         console = parse_errors v @
                           (case ending of Closed \<Rightarrow> [] | Broken \<Rightarrow> [ErrorPropagatingMasks])\<rparr>,
                      observed = s0 # seen v @ [finish (store v)],
                      final = finish (store v)\<rparr>)))"

section \<open>JSON.parse on a line of the stream\<close>

text \<open>
  The JSON grammar (ECMA-404) as a lexer and a parser over its tokens, both single passes.
  A string keeps the text between its quotes, a number its lexeme.
\<close>

datatype token =
    TLBrace | TRBrace | TLBrack | TRBrack | TColon | TComma
  | TString string | TNumber string | TWord string

datatype lex_mode =
    LTop
  | LStr string
  | LEsc string
  | LHex string nat
  | LNum string
  | LWord string

definition json_ws :: "char \<Rightarrow> bool" where
  "json_ws c = (c = CHR 0x20 \<or> c = CHR 0x09 \<or> c = CHR 0x0A \<or> c = CHR 0x0D)"

definition is_digit :: "char \<Rightarrow> bool" where
  "is_digit c = (48 \<le> (of_char c :: nat) \<and> (of_char c :: nat) \<le> 57)"

definition is_hex :: "char \<Rightarrow> bool" where
  "is_hex c = (is_digit c
     \<or> (65 \<le> (of_char c :: nat) \<and> (of_char c :: nat) \<le> 70)
     \<or> (97 \<le> (of_char c :: nat) \<and> (of_char c :: nat) \<le> 102))"

definition is_letter :: "char \<Rightarrow> bool" where
  "is_letter c = (97 \<le> (of_char c :: nat) \<and> (of_char c :: nat) \<le> 122)"

definition num_char :: "char \<Rightarrow> bool" where
  "num_char c = (is_digit c \<or> c = CHR ''-'' \<or> c = CHR ''+'' \<or> c = CHR ''.''
                 \<or> c = CHR ''e'' \<or> c = CHR ''E'')"

definition escapable :: "char \<Rightarrow> bool" where
  "escapable c = (c = CHR 0x22 \<or> c = CHR 0x5C \<or> c = CHR ''/'' \<or> c = CHR ''b''
                  \<or> c = CHR ''f'' \<or> c = CHR ''n'' \<or> c = CHR ''r'' \<or> c = CHR ''t'')"

text \<open>
  One character in each mode: the tokens completed by it and the next mode. A number or
  a word ends at the first character that cannot continue it, which is then read as a
  character between tokens.
\<close>

definition top_step :: "char \<Rightarrow> (token list \<times> lex_mode) option" where
  "top_step c =
     (if json_ws c then Some ([], LTop)
      else if c = CHR ''{'' then Some ([TLBrace], LTop)
      else if c = CHR ''}'' then Some ([TRBrace], LTop)
      else if c = CHR ''['' then Some ([TLBrack], LTop)
      else if c = CHR '']'' then Some ([TRBrack], LTop)
      else if c = CHR '':'' then Some ([TColon], LTop)
      else if c = CHR '','' then Some ([TComma], LTop)
      else if c = CHR 0x22 then Some ([], LStr [])
      else if is_digit c \<or> c = CHR ''-'' then Some ([], LNum [c])
      else if is_letter c then Some ([], LWord [c])
      else None)"

definition after_token :: "token \<Rightarrow> char \<Rightarrow> (token list \<times> lex_mode) option" where
  "after_token t c =
     (case top_step c of None \<Rightarrow> None | Some (ts, m) \<Rightarrow> Some (t # ts, m))"

definition lex_step :: "lex_mode \<Rightarrow> char \<Rightarrow> (token list \<times> lex_mode) option" where
  "lex_step m c =
     (case m of
        LTop \<Rightarrow> top_step c
      | LStr acc \<Rightarrow>
          if c = CHR 0x22 then Some ([TString acc], LTop)
          else if c = CHR 0x5C then Some ([], LEsc (acc @ [c]))
          else if (of_char c :: nat) < 32 then None
          else Some ([], LStr (acc @ [c]))
      | LEsc acc \<Rightarrow>
          if escapable c then Some ([], LStr (acc @ [c]))
          else if c = CHR ''u'' then Some ([], LHex (acc @ [c]) 4)
          else None
      | LHex acc n \<Rightarrow>
          if is_hex c
          then Some ([], if n \<le> 1 then LStr (acc @ [c]) else LHex (acc @ [c]) (n - 1))
          else None
      | LNum acc \<Rightarrow>
          if num_char c then Some ([], LNum (acc @ [c])) else after_token (TNumber acc) c
      | LWord acc \<Rightarrow>
          if is_letter c then Some ([], LWord (acc @ [c])) else after_token (TWord acc) c)"

definition lex_end :: "lex_mode \<Rightarrow> token list option" where
  "lex_end m =
     (case m of
        LTop \<Rightarrow> Some []
      | LNum acc \<Rightarrow> Some [TNumber acc]
      | LWord acc \<Rightarrow> Some [TWord acc]
      | _ \<Rightarrow> None)"

fun lex :: "lex_mode \<Rightarrow> string \<Rightarrow> token list option" where
  "lex m [] = lex_end m"
| "lex m (c # cs) =
     (case lex_step m c of
        None \<Rightarrow> None
      | Some (ts, m') \<Rightarrow> (case lex m' cs of None \<Rightarrow> None | Some rest \<Rightarrow> Some (ts @ rest)))"

text \<open>The number grammar: \<open>-? (0 | [1-9][0-9]*) (. [0-9]+)? ([eE] [+-]? [0-9]+)?\<close>.\<close>

datatype num_state = NStart | NMinus | NZero | NInt | NDot | NFrac | NE | NESign | NExp | NBad

definition num_step :: "num_state \<Rightarrow> char \<Rightarrow> num_state" where
  "num_step q c =
     (case q of
        NStart \<Rightarrow> if c = CHR ''-'' then NMinus else if c = CHR ''0'' then NZero
                  else if is_digit c then NInt else NBad
      | NMinus \<Rightarrow> if c = CHR ''0'' then NZero else if is_digit c then NInt else NBad
      | NZero \<Rightarrow> if c = CHR ''.'' then NDot else if c = CHR ''e'' \<or> c = CHR ''E'' then NE else NBad
      | NInt \<Rightarrow> if is_digit c then NInt else if c = CHR ''.'' then NDot
                else if c = CHR ''e'' \<or> c = CHR ''E'' then NE else NBad
      | NDot \<Rightarrow> if is_digit c then NFrac else NBad
      | NFrac \<Rightarrow> if is_digit c then NFrac else if c = CHR ''e'' \<or> c = CHR ''E'' then NE else NBad
      | NE \<Rightarrow> if c = CHR ''+'' \<or> c = CHR ''-'' then NESign else if is_digit c then NExp else NBad
      | NESign \<Rightarrow> if is_digit c then NExp else NBad
      | NExp \<Rightarrow> if is_digit c then NExp else NBad
      | NBad \<Rightarrow> NBad)"

definition valid_number :: "string \<Rightarrow> bool" where
  "valid_number t = (foldl num_step NStart t \<in> {NZero, NInt, NFrac, NExp})"

text \<open>
  The parser keeps a stack of the open arrays and objects and the phase of the grammar.
  A completed value is delivered to the innermost open container.
\<close>

datatype frame = FArr "json list" | FObj "(string \<times> json) list" | FKey "(string \<times> json) list" string

datatype phase = PValue | PValueOrClose | PKeyOrClose | PKey | PColon | PSep | PEnd json

type_synonym pstate = "phase \<times> frame list"

definition deliver :: "json \<Rightarrow> frame list \<Rightarrow> pstate option" where
  "deliver v st =
     (case st of
        [] \<Rightarrow> Some (PEnd v, [])
      | FArr xs # rest \<Rightarrow> Some (PSep, FArr (xs @ [v]) # rest)
      | FKey kvs k # rest \<Rightarrow> Some (PSep, FObj (kvs @ [(k, v)]) # rest)
      | FObj kvs # rest \<Rightarrow> None)"

definition scalar :: "token \<Rightarrow> json option" where
  "scalar t =
     (case t of
        TString s \<Rightarrow> Some (JStr s)
      | TNumber n \<Rightarrow> if valid_number n then Some (JNum n) else None
      | TWord w \<Rightarrow> if w = ''true'' then Some (JBool True)
                   else if w = ''false'' then Some (JBool False)
                   else if w = ''null'' then Some JNull else None
      | _ \<Rightarrow> None)"

definition value_start :: "token \<Rightarrow> frame list \<Rightarrow> pstate option" where
  "value_start t st =
     (case t of
        TLBrack \<Rightarrow> Some (PValueOrClose, FArr [] # st)
      | TLBrace \<Rightarrow> Some (PKeyOrClose, FObj [] # st)
      | _ \<Rightarrow> (case scalar t of None \<Rightarrow> None | Some v \<Rightarrow> deliver v st))"

definition close_array :: "frame list \<Rightarrow> pstate option" where
  "close_array st = (case st of FArr xs # rest \<Rightarrow> deliver (JArr xs) rest | _ \<Rightarrow> None)"

definition close_object :: "frame list \<Rightarrow> pstate option" where
  "close_object st = (case st of FObj kvs # rest \<Rightarrow> deliver (JObj kvs) rest | _ \<Rightarrow> None)"

definition read_key :: "token \<Rightarrow> frame list \<Rightarrow> pstate option" where
  "read_key t st =
     (case (t, st) of
        (TString k, FObj kvs # rest) \<Rightarrow> Some (PColon, FKey kvs k # rest)
      | _ \<Rightarrow> None)"

definition pstep :: "pstate \<Rightarrow> token \<Rightarrow> pstate option" where
  "pstep ps t =
     (case ps of (ph, st) \<Rightarrow>
        (case ph of
           PValue \<Rightarrow> value_start t st
         | PValueOrClose \<Rightarrow> if t = TRBrack then close_array st else value_start t st
         | PKeyOrClose \<Rightarrow> if t = TRBrace then close_object st else read_key t st
         | PKey \<Rightarrow> read_key t st
         | PColon \<Rightarrow> if t = TColon then Some (PValue, st) else None
         | PSep \<Rightarrow>
             (if t = TComma
              then (case st of FArr xs # rest \<Rightarrow> Some (PValue, st)
                             | FObj kvs # rest \<Rightarrow> Some (PKey, st)
                             | _ \<Rightarrow> None)
              else if t = TRBrack then close_array st
              else if t = TRBrace then close_object st
              else None)
         | PEnd v \<Rightarrow> None))"

fun parse_tokens :: "pstate \<Rightarrow> token list \<Rightarrow> json option" where
  "parse_tokens ps [] = (case ps of (PEnd v, []) \<Rightarrow> Some v | _ \<Rightarrow> None)"
| "parse_tokens ps (t # ts) =
     (case pstep ps t of None \<Rightarrow> None | Some ps' \<Rightarrow> parse_tokens ps' ts)"

definition JSON_parse :: "string \<Rightarrow> json option" where
  "JSON_parse t = (case lex LTop t of None \<Rightarrow> None | Some ts \<Rightarrow> parse_tokens (PValue, []) ts)"

text \<open>
  \<open>as FrameMasks\<close>: the value is read as a frame record, an object whose member
  frame\_idx is a natural number in decimal digits and whose member masks is an array.
  A later member of the same name overrides an earlier one, as in JavaScript. The cast
  of the source checks nothing when it runs: a JSON value that is not a frame record is
  stored by the code under whatever key its frame\_idx converts to, and counted. This
  decoder reports such a value like a line that does not parse; it is used here only on
  frame records and on text that JSON.parse itself rejects.
\<close>

definition member :: "string \<Rightarrow> (string \<times> json) list \<Rightarrow> json option" where
  "member k kvs = map_of (rev kvs) k"

definition digits_value :: "string \<Rightarrow> nat" where
  "digits_value ds = foldl (\<lambda>n c. 10 * n + ((of_char c :: nat) - 48)) 0 ds"

definition as_FrameMasks :: "json \<Rightarrow> FrameMasks option" where
  "as_FrameMasks v =
     (case v of
        JObj kvs \<Rightarrow>
          (case (member ''frame_idx'' kvs, member ''masks'' kvs) of
             (Some (JNum n), Some (JArr ms)) \<Rightarrow>
               if list_all is_digit n
               then Some \<lparr>frame_idx = digits_value n, mask_list = ms\<rparr>
               else None
           | _ \<Rightarrow> None)
      | _ \<Rightarrow> None)"

definition parse_frame :: parser where
  "parse_frame line = (case JSON_parse line of None \<Rightarrow> None | Some v \<Rightarrow> as_FrameMasks v)"

text \<open>
  The percentage in exact arithmetic. JavaScript rounds the quotient and the product to
  binary floating point, which can lower the result by one (29 of 100 gives 28); where the
  quotient is a dyadic fraction, as in one half, both agree.
\<close>

definition floor_percent :: percent where
  "floor_percent r t = (r * 100) div t"

section \<open>The replace effect (effects/ReplaceGLEffect.ts)\<close>

text \<open>
  The WebGL context as far as textures go: createTexture hands out a fresh texture (it
  is taken to succeed: the context is not lost) and deleteTexture releases one. The
  textures that are allocated and not yet deleted are the live ones.
\<close>

type_synonym texture = nat

record gl_context =
  fresh :: texture
  live :: "texture set"

definition createTexture :: "gl_context \<Rightarrow> texture \<times> gl_context" where
  "createTexture gl = (fresh gl, gl\<lparr>fresh := Suc (fresh gl), live := insert (fresh gl) (live gl)\<rparr>)"

definition deleteTexture :: "texture \<Rightarrow> gl_context \<Rightarrow> gl_context" where
  "deleteTexture t gl = gl\<lparr>live := live gl - {t}\<rparr>"

text \<open>
  Modelled from the spec: preAllocateTextures of common/utils/ShaderUtils is not among
  the sources; it pre-allocates the given number of mask slots, one texture each.
\<close>

fun preAllocateTextures :: "gl_context \<Rightarrow> nat \<Rightarrow> texture list \<times> gl_context" where
  "preAllocateTextures gl 0 = ([], gl)"
| "preAllocateTextures gl (Suc n) =
     (case createTexture gl of
        (t, gl1) \<Rightarrow> (case preAllocateTextures gl1 n of (ts, gl2) \<Rightarrow> (t # ts, gl2)))"

text \<open>
  The fields of the effect. \<open>gl_present\<close>, \<open>program_present\<close> and
  \<open>canvas_present\<close> say whether the fields \_gl, \_program and \_canvas inherited
  from BaseGLEffect are non-null; \<open>useCustomImageLocation\<close> whether that uniform
  location is. The two texture unit fields are initialised and never assigned.
\<close>

definition extraTextureUnit :: nat where
  "extraTextureUnit = 1"

definition masksTextureUnitStart :: nat where
  "masksTextureUnitStart = 2"

record replace_effect =
  gl_present :: bool
  program_present :: bool
  canvas_present :: bool
  variant :: nat
  numMasks :: nat
  bitmap :: "nat list"
  customImage :: "nat option"
  extraTexture :: "texture option"
  fillBg :: nat
  maskTextures :: "texture list"
  useCustomImage :: bool
  useCustomImageLocation :: bool

definition new_effect :: replace_effect where
  "new_effect =
     \<lparr>gl_present = False, program_present = False, canvas_present = False,
      variant = 0, numMasks = 0, bitmap = [], customImage = None,
      extraTexture = None, fillBg = 0, maskTextures = [],
      useCustomImage = False, useCustomImageLocation = False\<rparr>"

datatype uniform = UNumMasks | UFill | UUseCustomImage | UEmojiTexture | UMaskTexture nat | UBBox nat

datatype image = CustomImage nat | Icon nat | MaskBitmap nat

datatype gl_call =
    ClearColor
  | Clear
  | Uniform1i uniform nat
  | Uniform4fv uniform
  | ActiveTexture nat
  | BindTexture "texture option"
  | TexImage2D image
  | TexFilter bool
  | PixelStorei
  | DrawArrays

text \<open>
  BaseGLEffect is not among the sources. Its setupUniforms and the part of its cleanup
  that runs before the call returns are parameters: they act on the context and on the
  inherited field \_gl, and cannot name the private fields of ReplaceGLEffect.
\<close>

type_synonym base_setup = "gl_context \<Rightarrow> gl_context"
type_synonym base_cleanup = "bool \<times> gl_context \<Rightarrow> bool \<times> gl_context"

text \<open>
  setupUniforms; \<open>icons\<close> is the outcome of fetching the three icon bitmaps. When a
  fetch throws, the textures are allocated already and the bitmap pool stays empty.
\<close>

definition setupUniforms ::
  "base_setup \<Rightarrow> nat list reply \<Rightarrow> replace_effect \<Rightarrow> gl_context
     \<Rightarrow> outcome \<times> gl_call list \<times> replace_effect \<times> gl_context" where
  "setupUniforms super_setup icons e gl =
     (case createTexture (super_setup gl) of
        (extra, gl1) \<Rightarrow>
          (case preAllocateTextures gl1 3 of
             (ts, gl2) \<Rightarrow>
               (let calls = [Uniform1i UNumMasks (numMasks e),
                             Uniform1i UFill (fillBg e),
                             Uniform1i UUseCustomImage (if useCustomImage e then 1 else 0),
                             Uniform1i UEmojiTexture extraTextureUnit];
                    e1 = e\<lparr>extraTexture := Some extra, useCustomImageLocation := True,
                           maskTextures := ts, bitmap := []\<rparr>
                in case icons of
                     Resolves bs \<Rightarrow> (Fulfilled, calls, e1\<lparr>bitmap := bs\<rparr>, gl2)
                   | Throws \<Rightarrow> (Rejected OtherError, calls, e1, gl2))))"

text \<open>Reading a JavaScript array: undefined (None) at an index out of range.\<close>

definition slot :: "'a list \<Rightarrow> nat \<Rightarrow> 'a option" where
  "slot xs i = (if i < length xs then Some (xs ! i) else None)"

text \<open>The body of \<open>context.masks.forEach((mask, index) => ...)\<close> for one index.\<close>

definition mask_calls :: "replace_effect \<Rightarrow> nat \<Rightarrow> gl_call list" where
  "mask_calls e index =
     [ActiveTexture (index + masksTextureUnitStart),
      BindTexture (slot (maskTextures e) index),
      Uniform1i (UMaskTexture index) (index + masksTextureUnitStart),
      Uniform4fv (UBBox index),
      PixelStorei,
      TexImage2D (MaskBitmap index)]"

definition unbind_calls :: "replace_effect \<Rightarrow> nat \<Rightarrow> gl_call list" where
  "unbind_calls e index = [ActiveTexture (index + masksTextureUnitStart), BindTexture None]"

definition extra_image_calls :: "replace_effect \<Rightarrow> gl_call list" where
  "extra_image_calls e =
     (case (useCustomImage e, customImage e) of
        (True, Some img) \<Rightarrow> [TexImage2D (CustomImage img), TexFilter True]
      | _ \<Rightarrow>
          if length (bitmap e) \<noteq> 0
          then [TexImage2D (Icon (bitmap e ! ((variant e div 2) mod length (bitmap e)))),
                TexFilter False]
          else [])"

text \<open>
  apply on a frame context whose mask list has length \<open>n\<close> (the mask bitmaps and
  bounds are only passed on to WebGL): the WebGL calls made, in order, and the message
  of the invariant that threw, if one did. Nothing is written to the console. The early
  return on a null bitmap pool cannot happen, the pool being an array.
\<close>

definition apply_effect :: "replace_effect \<Rightarrow> nat \<Rightarrow> gl_call list \<times> string option" where
  "apply_effect e n =
     (if \<not> gl_present e then ([], Some ''WebGL2 context is required'')
      else if \<not> program_present e then ([], Some ''Not WebGL program found'')
      else
        ([ClearColor, Clear,
          Uniform1i UNumMasks n,
          Uniform1i UFill (if variant e mod 2 = 0 then 0 else 1)]
         @ (if useCustomImageLocation e
            then [Uniform1i UUseCustomImage (if useCustomImage e then 1 else 0)] else [])
         @ [ActiveTexture extraTextureUnit, BindTexture (extraTexture e)]
         @ extra_image_calls e
         @ concat (map (mask_calls e) [0..<n])
         @ [DrawArrays, BindTexture None]
         @ concat (map (unbind_calls e) [0..<n]),
         if canvas_present e then None else Some ''canvas is required''))"

text \<open>
  cleanup: the inherited cleanup first, then, if the context is still there, every mask
  texture is deleted and the list emptied.
\<close>

definition cleanup ::
  "base_cleanup \<Rightarrow> replace_effect \<Rightarrow> gl_context \<Rightarrow> replace_effect \<times> gl_context" where
  "cleanup super_cleanup e gl =
     (case super_cleanup (gl_present e, gl) of
        (present, gl1) \<Rightarrow>
          if present
          then (e\<lparr>gl_present := present, maskTextures := []\<rparr>,
                fold deleteTexture (maskTextures e) gl1)
          else (e\<lparr>gl_present := present\<rparr>, gl1))"

section \<open>Concrete inputs\<close>

definition newline :: char where
  "newline = CHR 0x0A"

definition click1 :: CanvasPoint where
  "click1 = \<lparr>point_x = 50, point_y = 50, point_label = 1\<rparr>"

definition click2 :: CanvasPoint where
  "click2 = \<lparr>point_x = 10, point_y = 20, point_label = 0\<rparr>"

definition session_state :: editor_state where
  "session_state =
     \<lparr>isLoading = False,
      currentVideo = Some \<lparr>video_id = ''v1'', video_name = ''clip'', video_path = ''clip.mp4''\<rparr>,
      sessionId = Some ''s1'',
      chatMessages = [],
      currentFrame = 0,
      points = [0 \<mapsto> [click1]],
      masks = Map.empty,
      videoFrames = [],
      isProcessing = False,
      processingProgress = 0,
      instructions = None\<rparr>"

definition line0 :: string where
  "line0 = ''{\"frame_idx\":0,\"masks\":[]}''"

definition line1 :: string where
  "line1 = ''{\"frame_idx\":1,\"masks\":[]}''"

definition line2 :: string where
  "line2 = ''{\"frame_idx\":2,\"masks\":[]}''"

definition mask_a :: json where
  "mask_a = JObj [(''object_id'', JNum ''1''), (''score'', JNum ''0.9'')]"

definition mask_b :: json where
  "mask_b = JObj [(''object_id'', JNum ''1''), (''score'', JNum ''0.5'')]"

text \<open>
  Two addPoint calls on the current frame whose replies arrive in the opposite order:
  the first call runs up to its await, then the second, then the second call's reply
  resumes it, and last the first call's reply resumes the first.
\<close>

definition replies_out_of_order ::
  "CanvasPoint \<Rightarrow> CanvasPoint \<Rightarrow> json list \<Rightarrow> json list \<Rightarrow> editor_state \<Rightarrow> editor_state" where
  "replies_out_of_order p1 p2 m1 m2 s =
     (let frameIdx = currentFrame s;
          s1 = snd (addPoint_begin p1 s);
          s2 = snd (addPoint_begin p2 s1);
          s3 = snd (addPoint_end frameIdx (Resolves m2) s2)
      in snd (addPoint_end frameIdx (Resolves m1) s3))"

section \<open>Notions used to state the properties of a propagation run\<close>

text \<open>
  The lines a run reads, chunk by chunk, the frame records among them, and the effect
  of storing a frame record in the mask set.
\<close>

definition stream_lines :: "string list \<Rightarrow> string list" where
  "stream_lines chunks = concat (map chunk_lines chunks)"

definition applied :: "parser \<Rightarrow> string list \<Rightarrow> FrameMasks list" where
  "applied parse chunks = List.map_filter parse (stream_lines chunks)"

definition put_frame :: "(nat \<rightharpoonup> FrameMasks) \<Rightarrow> FrameMasks \<Rightarrow> (nat \<rightharpoonup> FrameMasks)" where
  "put_frame m d = m(frame_idx d \<mapsto> d)"

definition progress_trace :: "run \<Rightarrow> nat list" where
  "progress_trace r = map processingProgress (observed r)"

text \<open>
  A chunk made of whole lines: each line is non-empty, holds no line feed, neither starts
  nor ends with white space, and is followed by a line feed.
\<close>

definition whole_line :: "string \<Rightarrow> bool" where
  "whole_line l = (l \<noteq> [] \<and> newline \<notin> set l \<and> \<not> is_space (hd l) \<and> \<not> is_space (last l))"

definition join_lines :: "string list \<Rightarrow> string" where
  "join_lines ls = concat (map (\<lambda>l. l @ [newline]) ls)"

text \<open>
  Runs on concrete streams, all on \<open>session_state\<close>, whose video frames are not
  loaded: three records in three chunks; two records and then a broken connection; one
  record cut in two by a chunk boundary; the records of frames 0 to 100, one per chunk.
\<close>

definition three_chunk_run :: run where
  "three_chunk_run =
     propagateMasks parse_frame floor_percent
       (Reader [line0 @ [newline], line1 @ [newline], line2 @ [newline]] Closed) 0
       session_state"

definition broken_run :: run where
  "broken_run =
     propagateMasks parse_frame floor_percent
       (Reader [line0 @ [newline], line1 @ [newline]] Broken) 0 session_state"

definition split_run :: run where
  "split_run =
     propagateMasks parse_frame floor_percent
       (Reader [take 15 line0, drop 15 line0 @ [newline]] Closed) 0 session_state"

function decimal :: "nat \<Rightarrow> string" where
  "decimal n =
     (if n < 10 then [char_of (48 + n)]
      else decimal (n div 10) @ [char_of (48 + n mod 10)])"
  by pat_completeness auto
termination
  by (relation "measure (\<lambda>n. n)") auto

definition frame_line :: "nat \<Rightarrow> string" where
  "frame_line k = ''{\"frame_idx\":'' @ decimal k @ '',\"masks\":[]}''"

definition long_run :: run where
  "long_run =
     propagateMasks parse_frame floor_percent
       (Reader (map (\<lambda>k. frame_line k @ [newline]) [0..<101]) Closed) 0 session_state"

text \<open>
  An effect set up on a context without textures. Two stand-ins for the inherited
  cleanup: one leaves the context field set, one clears it (sets \_gl to null); the
  inherited setupUniforms is taken to allocate nothing.
\<close>

definition empty_context :: gl_context where
  "empty_context = \<lparr>fresh = 0, live = {}\<rparr>"

definition keep_context :: base_cleanup where
  "keep_context pg = pg"

definition drop_context :: base_cleanup where
  "drop_context pg = (False, snd pg)"

definition initialised :: replace_effect where
  "initialised = new_effect\<lparr>gl_present := True, program_present := True, canvas_present := True\<rparr>"

definition ready_effect :: replace_effect where
  "ready_effect = fst (snd (snd (setupUniforms (\<lambda>gl. gl) (Resolves [7, 8, 9]) initialised empty_context)))"

definition ready_context :: gl_context where
  "ready_context = snd (snd (snd (setupUniforms (\<lambda>gl. gl) (Resolves [7, 8, 9]) initialised empty_context)))"

section \<open>Ending a session\<close>

lemma truthy_session_state: "truthy (sessionId session_state)"
  by (simp add: truthy_def session_state_def)

text \<open>
  C10: endSession leaves no active session whether the DELETE request succeeds or
  throws: with a session the request is sent, the session identifier and the video are
  cleared and the editor state (points, masks, current frame, video frames, chat
  messages, processing flag and progress, instructions) is reset; calling endSession
  again on the result sends nothing and changes nothing.
\<close>

theorem endSession_clears_session:
  "\<not> truthy (sessionId (snd (endSession backend s)))
   \<and> endSession backend' (snd (endSession backend s)) = (quiet, snd (endSession backend s))
   \<and> (truthy (sessionId s) \<longrightarrow>
        snd (endSession backend s) =
          \<lparr>isLoading = isLoading s, currentVideo = None, sessionId = None, chatMessages = [],
           currentFrame = 0, points = Map.empty, masks = Map.empty, videoFrames = [],
           isProcessing = False, processingProgress = 0, instructions = None\<rparr>
        \<and> promise (fst (endSession backend s)) = Fulfilled
        \<and> requests (fst (endSession backend s)) = [DeleteSession (the (sessionId s))])"
  by (cases s)
     (auto simp: endSession_def truthy_def resetEditorState_def quiet_def split: option.splits)

theorem endSession_clears_session_witness:
  "truthy (sessionId session_state)
   \<and> snd (endSession Throws session_state) =
          \<lparr>isLoading = False, currentVideo = None, sessionId = None, chatMessages = [],
           currentFrame = 0, points = Map.empty, masks = Map.empty, videoFrames = [],
           isProcessing = False, processingProgress = 0, instructions = None\<rparr>
   \<and> requests (fst (endSession Throws session_state)) = [DeleteSession ''s1'']
   \<and> endSession (Resolves ()) (snd (endSession Throws session_state))
        = (quiet, snd (endSession Throws session_state))"
proof -
  note th = endSession_clears_session [of Throws session_state "Resolves ()"]
  have t: "truthy (sessionId session_state)"
    by (rule truthy_session_state)
  have v: "isLoading session_state = False" "the (sessionId session_state) = ''s1''"
    by (simp_all add: session_state_def)
  from th t show ?thesis
    unfolding v by blast
qed

lemma not_truthy_after_endSession: "\<not> truthy (sessionId (snd (endSession backend s)))"
  by (auto simp: endSession_def truthy_def resetEditorState_def split: option.splits)

text \<open>
  C6, as the store has it: after endSession, propagateMasks returns at its guard. The
  promise is fulfilled, no request is sent, nothing is logged and the store is unchanged;
  no SessionNotFound is raised.
\<close>

theorem propagate_after_endSession_returns:
  "propagateMasks parse pct reply startFrame (snd (endSession backend s))
     = \<lparr>run_effects = \<lparr>promise = Fulfilled, requests = [], console = []\<rparr>,
        observed = [],
        final = snd (endSession backend s)\<rparr>"
  by (simp add: propagateMasks_def not_truthy_after_endSession quiet_def)

theorem propagate_after_endSession_returns_witness:
  "promise (run_effects (propagateMasks parse_frame floor_percent (Reader [line0] Closed) 0
      (snd (endSession (Resolves ()) session_state)))) = Fulfilled
   \<and> requests (run_effects (propagateMasks parse_frame floor_percent (Reader [line0] Closed) 0
      (snd (endSession (Resolves ()) session_state)))) = []
   \<and> sessionId (final (propagateMasks parse_frame floor_percent (Reader [line0] Closed) 0
      (snd (endSession (Resolves ()) session_state)))) = None"
proof -
  have "sessionId (snd (endSession (Resolves ()) session_state)) = None"
    by (simp add: endSession_def session_state_def resetEditorState_def)
  then show ?thesis
    by (simp add: propagate_after_endSession_returns
          [of parse_frame floor_percent "Reader [line0] Closed" 0 "Resolves ()" session_state])
qed

text \<open>
  C6 as claimed fails: on the session of \<open>session_state\<close>, ended, propagateMasks does
  not reject with SessionNotFound.
\<close>

theorem propagate_after_endSession_not_SessionNotFound:
  "promise (run_effects (propagateMasks parse_frame floor_percent (Reader [line0] Closed) 0
      (snd (endSession (Resolves ()) session_state)))) \<noteq> Rejected SessionNotFound"
  by (simp add: propagateMasks_def endSession_def session_state_def resetEditorState_def
        truthy_def quiet_def)

section \<open>Adding points\<close>

lemma session_state_fields:
  "sessionId session_state = Some ''s1''"
  "currentFrame session_state = 0"
  "points session_state = [0 \<mapsto> [click1]]"
  "masks session_state = Map.empty"
  "videoFrames session_state = []"
  by (simp_all add: session_state_def)

lemma frame_points_session_state: "frame_points session_state 0 = [click1]"
  by (simp add: frame_points_def session_state_fields)

lemma frame_points_addPoint:
  "frame_points (snd (addPoint result p s)) (currentFrame s)
     = frame_points s (currentFrame s) @ [p]"
  by (auto simp: addPoint_def addPoint_begin_def addPoint_end_def store_masks_def Let_def
        quiet_def frame_points_def split: option.splits reply.splits)

lemma currentFrame_addPoint: "currentFrame (snd (addPoint result p s)) = currentFrame s"
  by (auto simp: addPoint_def addPoint_begin_def addPoint_end_def store_masks_def Let_def
        quiet_def split: option.splits reply.splits)

text \<open>
  C4: addPoint appends the point to the points of the current frame, keeping every
  earlier point of that frame and every other frame, and the request it sends carries the
  coordinates and labels of all points of the frame, in the order they were added; a
  second point added after it extends the same list. (Without a session the point is
  stored and no request is sent.)
\<close>

theorem addPoint_accumulates:
  "points (snd (addPoint result p s))
     = (points s)(currentFrame s \<mapsto> frame_points s (currentFrame s) @ [p])
   \<and> requests (fst (addPoint result p s))
     = (if truthy (sessionId s)
        then [PostPoints (the (sessionId s)) (currentFrame s)
                (map (\<lambda>q. (point_x q, point_y q)) (frame_points s (currentFrame s) @ [p]))
                (map point_label (frame_points s (currentFrame s) @ [p]))]
        else [])
   \<and> frame_points (snd (addPoint result' p' (snd (addPoint result p s)))) (currentFrame s)
     = frame_points s (currentFrame s) @ [p, p']"
proof -
  have "frame_points (snd (addPoint result' p' (snd (addPoint result p s)))) (currentFrame s)
          = frame_points s (currentFrame s) @ [p, p']"
    using frame_points_addPoint [of result' p' "snd (addPoint result p s)"]
    by (simp add: currentFrame_addPoint frame_points_addPoint)
  then show ?thesis
    by (auto simp: addPoint_def addPoint_begin_def addPoint_end_def store_masks_def Let_def
          truthy_def quiet_def split: option.splits reply.splits)
qed

theorem addPoint_accumulates_witness:
  "points (snd (addPoint (Resolves [mask_a]) click2 session_state)) 0 = Some [click1, click2]
   \<and> requests (fst (addPoint (Resolves [mask_a]) click2 session_state))
       = [PostPoints ''s1'' 0 [(50, 50), (10, 20)] [1, 0]]"
  using addPoint_accumulates [of "Resolves [mask_a]" click2 session_state]
  by (simp add: session_state_fields frame_points_session_state truthy_def click1_def click2_def)

text \<open>
  C5, as the store has it: when the service call of an addPoint throws, the point stays
  in the points of the frame (nothing is rolled back), the masks are untouched, the error
  is logged and the promise is fulfilled. The store has no action that repeats the call:
  the service is called again only by a further addPoint, whose request carries the
  earlier points of the frame, the point of the failed call among them, followed by the
  new point. None of the earlier points is entered again, and the request differs from
  the failed one.
\<close>

theorem failed_addPoint_keeps_point:
  assumes "truthy (sessionId s)"
  shows "frame_points (snd (addPoint Throws p s)) (currentFrame s)
           = frame_points s (currentFrame s) @ [p]
         \<and> masks (snd (addPoint Throws p s)) = masks s
         \<and> promise (fst (addPoint Throws p s)) = Fulfilled
         \<and> console (fst (addPoint Throws p s)) = [FailedToAddPoint]
         \<and> requests (fst (addPoint Throws p s))
             = [PostPoints (the (sessionId s)) (currentFrame s)
                  (map (\<lambda>q. (point_x q, point_y q)) (frame_points s (currentFrame s) @ [p]))
                  (map point_label (frame_points s (currentFrame s) @ [p]))]
         \<and> requests (fst (addPoint result q (snd (addPoint Throws p s))))
             = [PostPoints (the (sessionId s)) (currentFrame s)
                  (map (\<lambda>q. (point_x q, point_y q)) (frame_points s (currentFrame s) @ [p, q]))
                  (map point_label (frame_points s (currentFrame s) @ [p, q]))]
         \<and> requests (fst (addPoint result q (snd (addPoint Throws p s))))
             \<noteq> requests (fst (addPoint Throws p s))"
proof -
  have a: "masks (snd (addPoint Throws p s)) = masks s"
          "promise (fst (addPoint Throws p s)) = Fulfilled"
          "console (fst (addPoint Throws p s)) = [FailedToAddPoint]"
    using assms
    by (auto simp: addPoint_def addPoint_begin_def addPoint_end_def Let_def truthy_def
          split: option.splits)
  have b: "requests (fst (addPoint Throws p s))
             = [PostPoints (the (sessionId s)) (currentFrame s)
                  (map (\<lambda>q. (point_x q, point_y q)) (frame_points s (currentFrame s) @ [p]))
                  (map point_label (frame_points s (currentFrame s) @ [p]))]"
    using assms
    by (auto simp: addPoint_def addPoint_begin_def addPoint_end_def Let_def
          frame_points_def truthy_def split: option.splits)
  have c: "requests (fst (addPoint result q (snd (addPoint Throws p s))))
             = [PostPoints (the (sessionId s)) (currentFrame s)
                  (map (\<lambda>q. (point_x q, point_y q)) (frame_points s (currentFrame s) @ [p, q]))
                  (map point_label (frame_points s (currentFrame s) @ [p, q]))]"
    using assms
    by (auto simp: addPoint_def addPoint_begin_def addPoint_end_def store_masks_def Let_def
          quiet_def frame_points_def truthy_def split: option.splits reply.splits)
  have "length (map point_label (frame_points s (currentFrame s) @ [p, q]))
          \<noteq> length (map point_label (frame_points s (currentFrame s) @ [p]))"
    by simp
  then have "map point_label (frame_points s (currentFrame s) @ [p, q])
          \<noteq> map point_label (frame_points s (currentFrame s) @ [p])"
    by metis
  then have d: "requests (fst (addPoint result q (snd (addPoint Throws p s))))
             \<noteq> requests (fst (addPoint Throws p s))"
    unfolding b c by simp
  show ?thesis using a b c d by (simp add: frame_points_addPoint)
qed

theorem failed_addPoint_keeps_point_witness:
  "truthy (sessionId session_state)
   \<and> frame_points (snd (addPoint Throws click2 session_state)) 0 = [click1, click2]
   \<and> masks (snd (addPoint Throws click2 session_state)) = Map.empty
   \<and> requests (fst (addPoint Throws click2 session_state))
       = [PostPoints ''s1'' 0 [(50, 50), (10, 20)] [1, 0]]
   \<and> requests (fst (addPoint (Resolves [mask_a]) click1
                      (snd (addPoint Throws click2 session_state))))
       = [PostPoints ''s1'' 0 [(50, 50), (10, 20), (50, 50)] [1, 0, 1]]"
  using failed_addPoint_keeps_point [of session_state click2 "Resolves [mask_a]" click1]
  by (simp add: session_state_fields frame_points_session_state truthy_def click1_def click2_def)

text \<open>
  C5 as claimed fails: on \<open>session_state\<close> the addPoint of click2 fails after sending
  the points click1, click2. Repeating it, by adding click2 again, sends click1, click2,
  click2: not the cumulative point set of the failed call, and not without entering a
  point.
\<close>

theorem retry_sends_another_point_set:
  "requests (fst (addPoint Throws click2 session_state))
     = [PostPoints ''s1'' 0 [(50, 50), (10, 20)] [1, 0]]
   \<and> requests (fst (addPoint (Resolves [mask_a]) click2
                      (snd (addPoint Throws click2 session_state))))
     = [PostPoints ''s1'' 0 [(50, 50), (10, 20), (10, 20)] [1, 0, 0]]
   \<and> requests (fst (addPoint (Resolves [mask_a]) click2
                      (snd (addPoint Throws click2 session_state))))
     \<noteq> requests (fst (addPoint Throws click2 session_state))"
  by (simp add: addPoint_def addPoint_begin_def addPoint_end_def store_masks_def Let_def
        frame_points_def session_state_fields click1_def click2_def)

text \<open>
  C3, as the store has it: addPoint keeps no request counter. When the second request
  is issued after the first and the first reply arrives after the second, both requests
  are sent as usual and the masks stored for the frame are those of the reply that
  arrived last, the first request's.
\<close>

theorem last_reply_wins:
  assumes "truthy (sessionId s)"
  shows "fst (addPoint_begin p1 s)
           = Some (PostPoints (the (sessionId s)) (currentFrame s)
                  (map (\<lambda>q. (point_x q, point_y q)) (frame_points s (currentFrame s) @ [p1]))
                  (map point_label (frame_points s (currentFrame s) @ [p1])))
         \<and> fst (addPoint_begin p2 (snd (addPoint_begin p1 s)))
           = Some (PostPoints (the (sessionId s)) (currentFrame s)
                  (map (\<lambda>q. (point_x q, point_y q)) (frame_points s (currentFrame s) @ [p1, p2]))
                  (map point_label (frame_points s (currentFrame s) @ [p1, p2])))
         \<and> map_option mask_list (masks (replies_out_of_order p1 p2 m1 m2 s) (currentFrame s))
           = Some m1"
  using assms
  by (auto simp: replies_out_of_order_def addPoint_begin_def addPoint_end_def store_masks_def
        Let_def frame_points_def truthy_def split: option.splits)

theorem last_reply_wins_witness:
  "truthy (sessionId session_state)
   \<and> map_option mask_list
         (masks (replies_out_of_order click1 click2 [mask_a] [mask_b] session_state) 0)
       = Some [mask_a]"
  using last_reply_wins [of session_state click1 click2 "[mask_a]" "[mask_b]"]
  by (simp add: session_state_fields truthy_def)

text \<open>
  C3 as claimed fails: with the replies [mask\_a] to the first request and [mask\_b] to
  the second, arriving in the opposite order, the masks stored for frame 0 are not the
  second request's.
\<close>

theorem stale_reply_stored:
  "\<not> (map_option mask_list
         (masks (replies_out_of_order click1 click2 [mask_a] [mask_b] session_state) 0)
       = Some [mask_b])"
  by (simp add: replies_out_of_order_def addPoint_begin_def addPoint_end_def store_masks_def
        Let_def frame_points_def session_state_fields mask_a_def mask_b_def)

section \<open>The read loop of propagateMasks\<close>

lemma for_lines_append:
  "for_lines parse pct t (xs @ ys) v = for_lines parse pct t ys (for_lines parse pct t xs v)"
  by (induction xs arbitrary: v) simp_all

lemma read_loop_lines:
  "read_loop parse pct t chunks v = for_lines parse pct t (stream_lines chunks) v"
  by (induction chunks arbitrary: v) (simp_all add: stream_lines_def for_lines_append)

lemma for_lines_errors:
  "parse_errors (for_lines parse pct t ls v)
     = parse_errors v
       @ replicate (length (filter (\<lambda>l. parse l = None) ls)) ErrorParsingPropagationResult"
  by (induction ls arbitrary: v)
     (auto simp: apply_line_def Let_def replicate_app_Cons_same split: option.splits)

lemma for_lines_seen:
  "map processingProgress (seen (for_lines parse pct t ls v))
     = map processingProgress (seen v)
       @ map (\<lambda>k. min 100 (pct k t))
           [Suc (receivedFrames v) ..< Suc (receivedFrames v + length (List.map_filter parse ls))]"
proof (induction ls arbitrary: v)
  case Nil
  then show ?case by (simp add: List.map_filter_simps)
next
  case (Cons l ls)
  show ?case
  proof (cases "parse l")
    case None
    then show ?thesis using Cons [of "apply_line parse pct t l v"]
      by (simp add: List.map_filter_simps apply_line_def del: upt_Suc)
  next
    case (Some d)
    let ?r = "receivedFrames v"
    let ?n = "length (List.map_filter parse ls)"
    have "Suc ?r < Suc (?r + Suc ?n)"
      by simp
    then have "[Suc ?r ..< Suc (?r + Suc ?n)] = Suc ?r # [Suc (Suc ?r) ..< Suc (?r + Suc ?n)]"
      by (rule upt_conv_Cons)
    then have u: "[Suc ?r ..< Suc (?r + Suc ?n)] = Suc ?r # [Suc (Suc ?r) ..< Suc (Suc ?r + ?n)]"
      by (simp del: upt_Suc)
    have v': "receivedFrames (apply_line parse pct t l v) = Suc ?r"
      "map processingProgress (seen (apply_line parse pct t l v))
         = map processingProgress (seen v) @ [min 100 (pct (Suc ?r) t)]"
      using Some by (simp_all add: apply_line_def Let_def)
    have m: "List.map_filter parse (l # ls) = d # List.map_filter parse ls"
      using Some by (simp add: List.map_filter_simps)
    show ?thesis
      using Cons [of "apply_line parse pct t l v"] u
      by (simp add: m v' Some del: upt_Suc)
  qed
qed

lemma for_lines_store:
  "store (for_lines parse pct t ls v)
     = (store v)\<lparr>masks := foldl put_frame (masks (store v)) (List.map_filter parse ls),
                 processingProgress :=
                   (if List.map_filter parse ls = [] then processingProgress (store v)
                    else min 100 (pct (receivedFrames v + length (List.map_filter parse ls)) t))\<rparr>"
  by (induction ls arbitrary: v)
     (auto simp: List.map_filter_simps apply_line_def put_frame_def Let_def split: option.splits)

lemma split_no_sep: "d \<notin> set l \<Longrightarrow> split d l = [l]"
  by (induction l) auto

lemma split_at_sep: "d \<notin> set l \<Longrightarrow> split d (l @ d # rest) = l # split d rest"
  by (induction l) auto

lemma split_ne: "split d t \<noteq> []"
  by (induction t) (auto split: list.splits)

lemma join_lines_snoc: "ls \<noteq> [] \<Longrightarrow> join_lines ls = butlast (join_lines ls) @ [newline]"
  by (induction ls rule: rev_induct) (simp_all add: join_lines_def butlast_append)

lemma split_butlast_join_lines:
  "ls \<noteq> [] \<Longrightarrow> \<forall>l \<in> set ls. newline \<notin> set l
     \<Longrightarrow> split newline (butlast (join_lines ls)) = ls"
proof (induction ls)
  case Nil
  then show ?case by simp
next
  case (Cons l ls)
  show ?case
  proof (cases "ls = []")
    case True
    then show ?thesis using Cons.prems by (simp add: join_lines_def split_no_sep)
  next
    case False
    then have "join_lines ls \<noteq> []"
      by (cases ls) (simp_all add: join_lines_def)
    then have "butlast (join_lines (l # ls)) = l @ newline # butlast (join_lines ls)"
      by (simp add: join_lines_def butlast_append)
    then show ?thesis
      using Cons False by (simp add: split_at_sep)
  qed
qed

lemma trim_join_lines:
  assumes "ls \<noteq> []" and "\<forall>l \<in> set ls. whole_line l"
  shows "trim (join_lines ls) = butlast (join_lines ls)"
proof -
  obtain l0 rest where ls: "ls = l0 # rest"
    using assms(1) by (cases ls) auto
  have "whole_line l0" using assms(2) ls by simp
  then obtain c cs where l0: "l0 = c # cs" and c: "\<not> is_space c"
    by (cases l0) (auto simp: whole_line_def)
  have front: "dropWhile is_space (join_lines ls) = join_lines ls"
    using c by (simp add: ls l0 join_lines_def)
  have wl: "whole_line (last ls)" using assms by simp
  let ?b = "butlast (join_lines ls)"
  have j: "join_lines ls = ?b @ [newline]"
    using assms(1) by (rule join_lines_snoc)
  have "\<exists>pre. ?b = pre @ last ls"
    using assms(1)
  proof (induction ls rule: rev_induct)
    case Nil
    then show ?case by simp
  next
    case (snoc x xs)
    show ?case by (simp add: join_lines_def butlast_append)
  qed
  then obtain pre where b: "?b = pre @ last ls" by blast
  have ne: "last ls \<noteq> []" and sp: "\<not> is_space (last (last ls))"
    using wl by (simp_all add: whole_line_def)
  have "rev ?b = last (last ls) # rev (butlast (last ls)) @ rev pre"
    using b ne by (metis append_butlast_last_id rev.simps(2) rev_append rev_rev_ident append_Cons append_Nil append_assoc)
  then have d: "dropWhile is_space (rev ?b) = rev ?b"
    using sp by simp
  have r: "rev (join_lines ls) = newline # rev ?b"
    by (subst j) simp
  have "is_space newline"
    by (simp add: is_space_def newline_def)
  then have "dropWhile is_space (newline # rev ?b) = rev ?b"
    using d by simp
  then have "dropWhile is_space (rev (join_lines ls)) = rev ?b"
    by (simp only: r)
  then show ?thesis
    by (simp add: trim_def front)
qed

lemma chunk_lines_join_lines:
  assumes "ls \<noteq> []" and "\<forall>l \<in> set ls. whole_line l"
  shows "chunk_lines (join_lines ls) = ls"
proof -
  have "\<forall>l \<in> set ls. newline \<notin> set l"
    using assms(2) by (simp add: whole_line_def)
  then have "split newline (butlast (join_lines ls)) = ls"
    using assms(1) split_butlast_join_lines by blast
  then show ?thesis
    using trim_join_lines [OF assms] by (simp add: chunk_lines_def newline_def)
qed

section \<open>Runs of propagateMasks\<close>

lemma guard_passes:
  assumes "truthy (sessionId s)" and "frame_points s startFrame \<noteq> []"
  shows "propagateMasks parse pct (Reader chunks ending) startFrame s =
     (let s0 = s\<lparr>isProcessing := True, processingProgress := 0\<rparr>;
          v = for_lines parse pct (total_frames s) (stream_lines chunks)
                \<lparr>receivedFrames = 0, store = s0, seen = [], parse_errors = []\<rparr>
      in \<lparr>run_effects =
            \<lparr>promise = Fulfilled,
             requests = [PostPropagate (the (sessionId s)) startFrame],
             console = parse_errors v @
               (case ending of Closed \<Rightarrow> [] | Broken \<Rightarrow> [ErrorPropagatingMasks])\<rparr>,
          observed = s0 # seen v @ [finish (store v)],
          final = finish (store v)\<rparr>)"
  using assms
  by (auto simp: propagateMasks_def Let_def read_loop_lines total_frames_def truthy_def
        split: option.splits)

lemma foldl_put_frame_other:
  "f \<notin> frame_idx ` set ds \<Longrightarrow> foldl put_frame m ds f = m f"
  by (induction ds arbitrary: m) (auto simp: put_frame_def)

lemma foldl_put_frame_distinct:
  "distinct (map frame_idx ds) \<Longrightarrow> d \<in> set ds \<Longrightarrow> foldl put_frame m ds (frame_idx d) = Some d"
proof (induction ds arbitrary: m)
  case Nil
  then show ?case by simp
next
  case (Cons a ds)
  show ?case
  proof (cases "d = a")
    case True
    have "frame_idx a \<notin> frame_idx ` set ds" using Cons.prems(1) by simp
    then have "foldl put_frame (put_frame m a) ds (frame_idx a) = put_frame m a (frame_idx a)"
      by (rule foldl_put_frame_other)
    moreover have "put_frame m a (frame_idx a) = Some a"
      by (simp add: put_frame_def)
    ultimately show ?thesis using True by simp
  next
    case False
    then show ?thesis using Cons by simp
  qed
qed

lemma final_masks:
  assumes "truthy (sessionId s)" and "frame_points s startFrame \<noteq> []"
  shows "masks (final (propagateMasks parse pct (Reader chunks ending) startFrame s))
           = foldl put_frame (masks s) (applied parse chunks)"
  by (simp add: guard_passes [OF assms] Let_def finish_def for_lines_store applied_def)

text \<open>
  C2, as the store has it: when the reader throws after some chunks, the error is caught
  and logged and the promise is fulfilled, not rejected: no PropagationInterrupted is
  raised and no frame index is reported. Nothing is rolled back: the store ends as after
  the same chunks on a stream that closes; the mask set is the one before the run with
  the parsed frame records stored in order, so a frame no record names keeps its old
  entry and, the frame indices being distinct, each record's frame holds that record.
\<close>

theorem broken_stream_keeps_applied:
  assumes "truthy (sessionId s)" and "frame_points s startFrame \<noteq> []"
  shows "promise (run_effects (propagateMasks parse pct (Reader chunks Broken) startFrame s)) = Fulfilled
    \<and> last (console (run_effects (propagateMasks parse pct (Reader chunks Broken) startFrame s)))
        = ErrorPropagatingMasks
    \<and> final (propagateMasks parse pct (Reader chunks Broken) startFrame s)
        = final (propagateMasks parse pct (Reader chunks Closed) startFrame s)
    \<and> masks (final (propagateMasks parse pct (Reader chunks Broken) startFrame s))
        = foldl put_frame (masks s) (applied parse chunks)
    \<and> (\<forall>f. f \<notin> frame_idx ` set (applied parse chunks) \<longrightarrow>
          masks (final (propagateMasks parse pct (Reader chunks Broken) startFrame s)) f = masks s f)
    \<and> (distinct (map frame_idx (applied parse chunks)) \<longrightarrow>
         (\<forall>d \<in> set (applied parse chunks).
            masks (final (propagateMasks parse pct (Reader chunks Broken) startFrame s)) (frame_idx d)
              = Some d))"
proof -
  have e: "promise (run_effects (propagateMasks parse pct (Reader chunks Broken) startFrame s)) = Fulfilled"
    "last (console (run_effects (propagateMasks parse pct (Reader chunks Broken) startFrame s)))
        = ErrorPropagatingMasks"
    "final (propagateMasks parse pct (Reader chunks Broken) startFrame s)
        = final (propagateMasks parse pct (Reader chunks Closed) startFrame s)"
    by (simp_all add: guard_passes [OF assms] Let_def)
  note m = final_masks [OF assms, of parse pct chunks Broken]
  have o: "\<forall>f. f \<notin> frame_idx ` set (applied parse chunks) \<longrightarrow>
          masks (final (propagateMasks parse pct (Reader chunks Broken) startFrame s)) f = masks s f"
    unfolding m by (simp add: foldl_put_frame_other)
  have d: "distinct (map frame_idx (applied parse chunks)) \<longrightarrow>
         (\<forall>d \<in> set (applied parse chunks).
            masks (final (propagateMasks parse pct (Reader chunks Broken) startFrame s)) (frame_idx d)
              = Some d)"
    unfolding m by (simp add: foldl_put_frame_distinct)
  from e m o d show ?thesis
    by blast
qed

lemma sorted_map_upt:
  assumes "\<And>a b. a \<le> b \<Longrightarrow> g a \<le> (g b :: nat)"
  shows "sorted (map g [i..<j])"
proof (induction j)
  case 0
  then show ?case by simp
next
  case (Suc j)
  then show ?case by (auto simp: sorted_append assms)
qed

lemma trace_of_run:
  assumes "truthy (sessionId s)" and "frame_points s startFrame \<noteq> []"
  shows "progress_trace (propagateMasks parse pct (Reader chunks ending) startFrame s)
     = 0 # map (\<lambda>k. min 100 (pct k (total_frames s))) [1 ..< Suc (length (applied parse chunks))]
         @ [100]"
  using for_lines_seen [of parse pct "total_frames s" "stream_lines chunks"
      "\<lparr>receivedFrames = 0, store = s\<lparr>isProcessing := True, processingProgress := 0\<rparr>,
        seen = [], parse_errors = []\<rparr>"]
  by (simp add: progress_trace_def guard_passes [OF assms] Let_def finish_def applied_def
        del: upt_Suc)

lemma sorted_trace_shape:
  assumes "\<And>r r' t. r \<le> r' \<Longrightarrow> pct r t \<le> (pct r' t :: nat)"
  shows "sorted (0 # map (\<lambda>k. min 100 (pct k t)) [1 ..< Suc n] @ [100 :: nat])"
proof -
  have "sorted (map (\<lambda>k. min 100 (pct k t)) [1 ..< Suc n])"
    by (rule sorted_map_upt) (simp add: assms min.coboundedI2)
  then show ?thesis
    by (auto simp: sorted_append simp del: upt_Suc)
qed


text \<open>
  C8, as the store has it: for a percentage that grows with the number of received
  frames, the progress values written during a run are non-decreasing and at most 100,
  and the last one, written by the finally block on completion and on failure alike, is
  100. After the k-th applied frame the value is the smaller of 100 and the percentage of
  k in the total (the number of video frames, or 100 when there are none), so it is 100
  from the moment k reaches the total, whether or not further frames follow.
\<close>

theorem progress_is_monotone:
  assumes "\<And>r r' t. r \<le> r' \<Longrightarrow> pct r t \<le> pct r' t"
  shows "sorted (progress_trace (propagateMasks parse pct reply startFrame s))
    \<and> (\<forall>p \<in> set (progress_trace (propagateMasks parse pct reply startFrame s)). p \<le> 100)
    \<and> (truthy (sessionId s) \<and> frame_points s startFrame \<noteq> [] \<longrightarrow>
          last (progress_trace (propagateMasks parse pct reply startFrame s)) = 100
          \<and> processingProgress (final (propagateMasks parse pct reply startFrame s)) = 100
          \<and> (\<forall>chunks ending. reply = Reader chunks ending \<longrightarrow>
                progress_trace (propagateMasks parse pct reply startFrame s)
                  = 0 # map (\<lambda>k. min 100 (pct k (total_frames s)))
                          [1 ..< Suc (length (applied parse chunks))] @ [100]))"
proof (cases "truthy (sessionId s) \<and> frame_points s startFrame \<noteq> []")
  case False
  then have e: "progress_trace (propagateMasks parse pct reply startFrame s) = []"
    by (auto simp: propagateMasks_def progress_trace_def)
  have srt: "sorted (progress_trace (propagateMasks parse pct reply startFrame s))"
    and bnd: "\<forall>p \<in> set (progress_trace (propagateMasks parse pct reply startFrame s)). p \<le> 100"
    by (simp_all add: e)
  from srt bnd False show ?thesis
    by blast
next
  case True
  then have g: "truthy (sessionId s)" "frame_points s startFrame \<noteq> []" by simp_all
  show ?thesis
  proof (cases reply)
    case RequestFailed
    have e: "progress_trace (propagateMasks parse pct reply startFrame s) = [0, 100]"
      and f: "processingProgress (final (propagateMasks parse pct reply startFrame s)) = 100"
      using g by (simp_all add: RequestFailed propagateMasks_def progress_trace_def Let_def finish_def)
    have srt: "sorted (progress_trace (propagateMasks parse pct reply startFrame s))"
      and bnd: "\<forall>p \<in> set (progress_trace (propagateMasks parse pct reply startFrame s)). p \<le> 100"
      and lst: "last (progress_trace (propagateMasks parse pct reply startFrame s)) = 100"
      by (simp_all add: e)
    from srt bnd lst f RequestFailed show ?thesis
      by blast
  next
    case (Reader chunks ending)
    note t = trace_of_run [OF g, of parse pct chunks ending]
    have f: "processingProgress (final (propagateMasks parse pct reply startFrame s)) = 100"
      by (simp add: Reader guard_passes [OF g] Let_def finish_def)
    have srt: "sorted (progress_trace (propagateMasks parse pct reply startFrame s))"
      unfolding Reader t using assms by (rule sorted_trace_shape)
    have bnd: "\<forall>p \<in> set (progress_trace (propagateMasks parse pct reply startFrame s)). p \<le> 100"
      unfolding Reader t by (auto simp del: upt_Suc)
    have lst: "last (progress_trace (propagateMasks parse pct reply startFrame s)) = 100"
      unfolding Reader t by (simp del: upt_Suc)
    have shape: "\<forall>chunks' ending'. reply = Reader chunks' ending' \<longrightarrow>
                progress_trace (propagateMasks parse pct reply startFrame s)
                  = 0 # map (\<lambda>k. min 100 (pct k (total_frames s)))
                          [1 ..< Suc (length (applied parse chunks'))] @ [100]"
      using t Reader by blast
    from srt bnd lst f shape show ?thesis
      by blast
  qed
qed


lemma parse_lines:
  "parse_frame line0 = Some \<lparr>frame_idx = 0, mask_list = []\<rparr>"
  "parse_frame line1 = Some \<lparr>frame_idx = 1, mask_list = []\<rparr>"
  "parse_frame line2 = Some \<lparr>frame_idx = 2, mask_list = []\<rparr>"
  "parse_frame (take 15 line0) = None"
  "parse_frame (drop 15 line0) = None"
  by (code_simp+)

lemma whole_lines: "whole_line line0" "whole_line line1" "whole_line line2"
  by (code_simp+)

lemma floor_percent_mono: "r \<le> r' \<Longrightarrow> floor_percent r t \<le> floor_percent r' t"
  by (simp add: floor_percent_def div_le_mono)

lemma guard_session_state:
  "truthy (sessionId session_state)" "frame_points session_state 0 \<noteq> []"
  by (simp_all add: truthy_def session_state_def frame_points_def)

text \<open>
  The run \<open>three_chunk_run\<close>, with the exact percentage: three records, the total
  being the fallback of 100.
\<close>

theorem progress_is_monotone_witness:
  "truthy (sessionId session_state) \<and> frame_points session_state 0 \<noteq> []
   \<and> sorted (progress_trace three_chunk_run)
   \<and> last (progress_trace three_chunk_run) = 100
   \<and> progress_trace three_chunk_run = [0, 1, 2, 3, 100]"
proof -
  note th = progress_is_monotone [of floor_percent parse_frame
      "Reader [line0 @ [newline], line1 @ [newline], line2 @ [newline]] Closed" 0 session_state,
      OF floor_percent_mono, folded three_chunk_run_def]
  have s: "sorted (progress_trace three_chunk_run)"
    using th by (rule conjunct1)
  have l: "last (progress_trace three_chunk_run) = 100"
    using th guard_session_state by blast
  have e: "progress_trace three_chunk_run = [0, 1, 2, 3, 100]"
    by code_simp
  from s l e guard_session_state show ?thesis
    by blast
qed

text \<open>
  The run \<open>broken_run\<close>: two records are applied, then the connection breaks.
\<close>

theorem broken_stream_keeps_applied_witness:
  "truthy (sessionId session_state) \<and> frame_points session_state 0 \<noteq> []
   \<and> promise (run_effects broken_run) = Fulfilled
   \<and> masks (final broken_run) 0 = Some \<lparr>frame_idx = 0, mask_list = []\<rparr>
   \<and> masks (final broken_run) 1 = Some \<lparr>frame_idx = 1, mask_list = []\<rparr>
   \<and> masks (final broken_run) 2 = masks session_state 2"
proof -
  note th = broken_stream_keeps_applied [of session_state 0 parse_frame floor_percent
      "[line0 @ [newline], line1 @ [newline]]", OF guard_session_state,
      folded broken_run_def]
  have a: "applied parse_frame [line0 @ [newline], line1 @ [newline]]
             = [\<lparr>frame_idx = 0, mask_list = []\<rparr>, \<lparr>frame_idx = 1, mask_list = []\<rparr>]"
    by code_simp
  have p: "promise (run_effects broken_run) = Fulfilled"
    using th by (rule conjunct1)
  have m: "masks (final broken_run)
             = foldl put_frame (masks session_state)
                 (applied parse_frame [line0 @ [newline], line1 @ [newline]])"
    using th by blast
  have v: "masks (final broken_run) 0 = Some \<lparr>frame_idx = 0, mask_list = []\<rparr>"
    "masks (final broken_run) 1 = Some \<lparr>frame_idx = 1, mask_list = []\<rparr>"
    "masks (final broken_run) 2 = masks session_state 2"
    unfolding m a by (simp_all add: put_frame_def)
  from p v guard_session_state show ?thesis
    by blast
qed

text \<open>
  C2 as claimed fails: \<open>broken_run\<close> applies frames 0 and 1 and is then interrupted,
  and its promise is fulfilled rather than rejected with PropagationInterrupted.
\<close>

theorem broken_stream_not_PropagationInterrupted:
  "promise (run_effects broken_run) = Fulfilled
   \<and> promise (run_effects broken_run) \<noteq> Rejected (PropagationInterrupted 1)"
  by code_simp


lemma map_filter_all_Some:
  "\<forall>x \<in> set xs. f x \<noteq> None \<Longrightarrow> List.map_filter f xs = map (\<lambda>x. the (f x)) xs"
  by (induction xs) (auto simp: List.map_filter_simps)

lemma stream_lines_join_lines:
  assumes "\<forall>ls \<in> set liness. ls \<noteq> [] \<and> (\<forall>l \<in> set ls. whole_line l)"
  shows "stream_lines (map join_lines liness) = concat liness"
proof -
  have "map (\<lambda>ls. chunk_lines (join_lines ls)) liness = liness"
    using assms by (intro map_idI) (simp add: chunk_lines_join_lines)
  then show ?thesis
    by (simp add: stream_lines_def comp_def)
qed

text \<open>
  C1, as the store has it: the consumer keeps no buffer between reads; each chunk is
  trimmed, split at line feeds and parsed line by line, and a line that does not parse is
  logged and dropped. When every chunk is made of whole lines, each a frame record, the
  lines read are exactly those lines, every record is stored in the mask set in order,
  and no parse error is logged.
\<close>

theorem whole_line_chunks_are_applied:
  assumes "truthy (sessionId s)" and "frame_points s startFrame \<noteq> []"
    and "\<forall>ls \<in> set liness. ls \<noteq> [] \<and> (\<forall>l \<in> set ls. whole_line l \<and> parse l \<noteq> None)"
  shows "stream_lines (map join_lines liness) = concat liness
    \<and> masks (final (propagateMasks parse pct (Reader (map join_lines liness) ending) startFrame s))
        = foldl put_frame (masks s) (map (\<lambda>l. the (parse l)) (concat liness))
    \<and> ErrorParsingPropagationResult
        \<notin> set (console (run_effects
              (propagateMasks parse pct (Reader (map join_lines liness) ending) startFrame s)))"
proof -
  have w: "\<forall>ls \<in> set liness. ls \<noteq> [] \<and> (\<forall>l \<in> set ls. whole_line l)"
    using assms(3) by blast
  have sl: "stream_lines (map join_lines liness) = concat liness"
    using w by (rule stream_lines_join_lines)
  have ok: "\<forall>l \<in> set (concat liness). parse l \<noteq> None"
    using assms(3) by auto
  then have ap: "applied parse (map join_lines liness) = map (\<lambda>l. the (parse l)) (concat liness)"
    by (simp add: applied_def sl map_filter_all_Some)
  have m: "masks (final (propagateMasks parse pct (Reader (map join_lines liness) ending) startFrame s))
        = foldl put_frame (masks s) (map (\<lambda>l. the (parse l)) (concat liness))"
    using final_masks [OF assms(1,2), of parse pct "map join_lines liness" ending]
    by (simp add: ap)
  have "filter (\<lambda>l. parse l = None) (concat liness) = []"
    using ok by (simp add: filter_empty_conv)
  then have c: "console (run_effects
              (propagateMasks parse pct (Reader (map join_lines liness) ending) startFrame s))
          = (case ending of Closed \<Rightarrow> [] | Broken \<Rightarrow> [ErrorPropagatingMasks])"
    by (simp add: guard_passes [OF assms(1,2)] Let_def for_lines_errors sl)
  have "ErrorParsingPropagationResult
        \<notin> set (console (run_effects
              (propagateMasks parse pct (Reader (map join_lines liness) ending) startFrame s)))"
    unfolding c by (cases ending) simp_all
  with sl m show ?thesis
    by blast
qed

text \<open>Three records in two chunks, the first chunk holding two whole lines.\<close>

theorem whole_line_chunks_are_applied_witness:
  "truthy (sessionId session_state) \<and> frame_points session_state 0 \<noteq> []
   \<and> whole_line line0 \<and> whole_line line1 \<and> whole_line line2
   \<and> map join_lines [[line0, line1], [line2]]
        = [line0 @ [newline] @ line1 @ [newline], line2 @ [newline]]
   \<and> masks (final (propagateMasks parse_frame floor_percent
         (Reader (map join_lines [[line0, line1], [line2]]) Closed) 0 session_state)) 1
        = Some \<lparr>frame_idx = 1, mask_list = []\<rparr>
   \<and> masks (final (propagateMasks parse_frame floor_percent
         (Reader (map join_lines [[line0, line1], [line2]]) Closed) 0 session_state)) 2
        = Some \<lparr>frame_idx = 2, mask_list = []\<rparr>"
proof -
  have h: "\<forall>ls \<in> set [[line0, line1], [line2]].
             ls \<noteq> [] \<and> (\<forall>l \<in> set ls. whole_line l \<and> parse_frame l \<noteq> None)"
    by (simp add: whole_lines parse_lines)
  note th = whole_line_chunks_are_applied [of session_state 0 "[[line0, line1], [line2]]"
      parse_frame floor_percent Closed, OF guard_session_state h]
  have m: "masks (final (propagateMasks parse_frame floor_percent
         (Reader (map join_lines [[line0, line1], [line2]]) Closed) 0 session_state))
        = foldl put_frame (masks session_state)
            (map (\<lambda>l. the (parse_frame l)) (concat [[line0, line1], [line2]]))"
    using th by blast
  have v: "masks (final (propagateMasks parse_frame floor_percent
         (Reader (map join_lines [[line0, line1], [line2]]) Closed) 0 session_state)) 1
        = Some \<lparr>frame_idx = 1, mask_list = []\<rparr>"
     "masks (final (propagateMasks parse_frame floor_percent
         (Reader (map join_lines [[line0, line1], [line2]]) Closed) 0 session_state)) 2
        = Some \<lparr>frame_idx = 2, mask_list = []\<rparr>"
    unfolding m by (simp_all add: parse_lines put_frame_def)
  have j: "map join_lines [[line0, line1], [line2]]
        = [line0 @ [newline] @ line1 @ [newline], line2 @ [newline]]"
    by (simp add: join_lines_def)
  from v j whole_lines guard_session_state show ?thesis
    by blast
qed

text \<open>
  C1 as claimed fails: in \<open>split_run\<close> the two chunks concatenate to the line of
  frame 0, a frame record, followed by a line feed, the chunk boundary falling inside the
  JSON object; neither piece parses and frame 0 is never stored.
\<close>

theorem split_record_is_dropped:
  "concat [take 15 line0, drop 15 line0 @ [newline]] = line0 @ [newline]
   \<and> parse_frame line0 = Some \<lparr>frame_idx = 0, mask_list = []\<rparr>
   \<and> masks (final split_run) 0 = None"
  by code_simp

section \<open>Textures of the replace effect\<close>

lemma live_fold_deleteTexture: "live (fold deleteTexture ts gl) = live gl - set ts"
  by (induction ts arbitrary: gl) (auto simp: deleteTexture_def)

lemma cleanup_deletes_mask_textures_only:
  "extraTexture (fst (cleanup super_cleanup e gl)) = extraTexture e
   \<and> live (snd (cleanup super_cleanup e gl))
       = (if fst (super_cleanup (gl_present e, gl))
          then live (snd (super_cleanup (gl_present e, gl))) - set (maskTextures e)
          else live (snd (super_cleanup (gl_present e, gl))))"
  by (auto simp: cleanup_def live_fold_deleteTexture split: prod.splits)

lemma preAllocateTextures_3:
  "preAllocateTextures gl 3 =
     ([fresh gl, Suc (fresh gl), Suc (Suc (fresh gl))],
      gl\<lparr>fresh := Suc (Suc (Suc (fresh gl))),
         live := insert (Suc (Suc (fresh gl))) (insert (Suc (fresh gl)) (insert (fresh gl) (live gl)))\<rparr>)"
  by (simp add: numeral_3_eq_3 createTexture_def)

lemma setupUniforms_textures:
  assumes "setupUniforms super_setup icons e0 gl0 = (out, calls, e, gl)"
  shows "extraTexture e = Some (fresh (super_setup gl0))"
    and "maskTextures e = [fresh (super_setup gl0) + 1, fresh (super_setup gl0) + 2,
                           fresh (super_setup gl0) + 3]"
    and "live gl = live (super_setup gl0)
           \<union> {fresh (super_setup gl0), fresh (super_setup gl0) + 1,
               fresh (super_setup gl0) + 2, fresh (super_setup gl0) + 3}"
    and "gl_present e = gl_present e0" and "program_present e = program_present e0"
    and "canvas_present e = canvas_present e0"
  using assms
  by (auto simp: setupUniforms_def createTexture_def preAllocateTextures_3 Let_def
        split: reply.splits)


text \<open>
  Whatever the inherited parts do, cleanup itself deletes the mask textures and nothing
  else: an extra texture that the inherited cleanup leaves allocated stays allocated, and
  the field still holds it.
\<close>

lemma extra_texture_outlives_cleanup:
  assumes "setupUniforms super_setup icons e0 gl0 = (out, calls, e, gl)"
    and "fresh (super_setup gl0) \<in> live (snd (super_cleanup (gl_present e, gl)))"
  shows "extraTexture (fst (cleanup super_cleanup e gl)) = Some (fresh (super_setup gl0))
         \<and> fresh (super_setup gl0) \<in> live (snd (cleanup super_cleanup e gl))"
  using assms(2) setupUniforms_textures(1,2) [OF assms(1)]
  by (simp add: cleanup_deletes_mask_textures_only)

text \<open>
  C9 does not hold of cleanup: the effect set up on an empty context holds the extra
  texture 0 and the mask textures 1, 2 and 3, all allocated. After cleanup with the
  context field left set, the mask textures are released but texture 0 is still allocated
  and still held by the field \_extraTexture; with the context field cleared by the
  inherited cleanup, no texture is released at all.
\<close>

theorem cleanup_keeps_extra_texture:
  "extraTexture ready_effect = Some 0
   \<and> maskTextures ready_effect = [1, 2, 3]
   \<and> live ready_context = {0, 1, 2, 3}
   \<and> live (snd (cleanup keep_context ready_effect ready_context)) = {0}
   \<and> extraTexture (fst (cleanup keep_context ready_effect ready_context)) = Some 0
   \<and> live (snd (cleanup drop_context ready_effect ready_context)) = {0, 1, 2, 3}"
  by code_simp

lemma bind_none_in_mask_calls:
  "BindTexture None \<in> set (mask_calls e i) \<longleftrightarrow> length (maskTextures e) \<le> i"
  by (simp add: mask_calls_def slot_def)

lemma bind_none_iff:
  "BindTexture None \<in> set (concat (map (mask_calls e) [0..<n])) \<longleftrightarrow> length (maskTextures e) < n"
proof -
  have "BindTexture None \<in> set (concat (map (mask_calls e) [0..<n]))
          \<longleftrightarrow> (\<exists>i<n. length (maskTextures e) \<le> i)"
    by (auto simp: bind_none_in_mask_calls)
  also have "\<dots> \<longleftrightarrow> length (maskTextures e) < n"
    by auto
  finally show ?thesis .
qed

lemma mask_calls_in_apply:
  assumes "gl_present e" and "program_present e" and "i < n"
  shows "set (mask_calls e i) \<subseteq> set (fst (apply_effect e n))"
  using assms by (auto simp: apply_effect_def)









section \<open>A run longer than the assumed total\<close>

lemma for_lines_snapshots:
  "seen (for_lines parse pct t ls v)
     = seen v @ map (\<lambda>k. (store v)\<lparr>masks := foldl put_frame (masks (store v))
                                           (take (Suc k) (List.map_filter parse ls)),
                                      processingProgress :=
                                        min 100 (pct (receivedFrames v + Suc k) t)\<rparr>)
                 [0 ..< length (List.map_filter parse ls)]"
proof (induction ls arbitrary: v)
  case Nil
  then show ?case by (simp add: List.map_filter_simps)
next
  case (Cons l ls)
  show ?case
  proof (cases "parse l")
    case None
    then show ?thesis using Cons [of "apply_line parse pct t l v"]
      by (simp add: List.map_filter_simps apply_line_def del: upt_Suc)
  next
    case (Some d)
    let ?n = "length (List.map_filter parse ls)"
    let ?v = "apply_line parse pct t l v"
    have m: "List.map_filter parse (l # ls) = d # List.map_filter parse ls"
      using Some by (simp add: List.map_filter_simps)
    have v': "receivedFrames ?v = Suc (receivedFrames v)"
      "store ?v = (store v)\<lparr>masks := put_frame (masks (store v)) d,
                              processingProgress := min 100 (pct (Suc (receivedFrames v)) t)\<rparr>"
      "seen ?v = seen v @ [store ?v]"
      using Some by (simp_all add: apply_line_def Let_def put_frame_def)
    have u: "[0 ..< Suc ?n] = 0 # map Suc [0 ..< ?n]"
      by (simp only: upt_conv_Cons [OF zero_less_Suc] map_Suc_upt)
    show ?thesis
      unfolding for_lines.simps Cons [of ?v] m
      by (simp add: v' u comp_def del: upt_Suc)
  qed
qed


lemma digit_char_not_newline: "char_of (48 + n mod 10 :: nat) \<noteq> newline"
proof
  assume "char_of (48 + n mod 10 :: nat) = newline"
  then have "of_char (char_of (48 + n mod 10 :: nat)) = (of_char newline :: nat)"
    by simp
  then show False
    by (simp add: newline_def)
qed

lemma decimal_no_newline: "newline \<notin> set (decimal n)"
proof (induction n rule: decimal.induct)
  case (1 n)
  show ?case
  proof (cases "n < 10")
    case True
    then have "n mod 10 = n" by simp
    then have "char_of (48 + n) \<noteq> newline"
      using digit_char_not_newline [of n] by simp
    then show ?thesis
      using True by (subst decimal.simps) auto
  next
    case False
    then show ?thesis
      using 1 digit_char_not_newline [of n] by (subst decimal.simps) auto
  qed
qed

lemma whole_frame_line: "whole_line (frame_line k)"
  using decimal_no_newline [of k]
  by (simp add: whole_line_def frame_line_def is_space_def newline_def)

lemma chunk_lines_single: "whole_line l \<Longrightarrow> chunk_lines (l @ [newline]) = [l]"
  using chunk_lines_join_lines [of "[l]"] by (simp add: join_lines_def)

lemma frame_lines_parse:
  "list_all (\<lambda>k. parse_frame (frame_line k) = Some \<lparr>frame_idx = k, mask_list = []\<rparr>)
     [0..<101]"
  by code_simp

lemma applied_frame_lines:
  "applied parse_frame (map (\<lambda>k. frame_line k @ [newline]) [0..<101])
     = map (\<lambda>k. \<lparr>frame_idx = k, mask_list = []\<rparr>) [0..<101]"
proof -
  have "\<forall>k \<in> set [0..<101].
          parse_frame (frame_line k) = Some \<lparr>frame_idx = k, mask_list = []\<rparr>"
    using frame_lines_parse by (simp only: list_all_iff)
  then have ok: "\<forall>k \<in> set [0..<101]. whole_line (frame_line k)
                 \<and> parse_frame (frame_line k) = Some \<lparr>frame_idx = k, mask_list = []\<rparr>"
    using whole_frame_line by blast
  have "map (\<lambda>k. chunk_lines (frame_line k @ [newline])) [0..<101]
          = map (\<lambda>k. [frame_line k]) [0..<101]"
    using ok by (intro map_cong refl) (simp add: chunk_lines_single)
  then have sl: "stream_lines (map (\<lambda>k. frame_line k @ [newline]) [0..<101])
          = map frame_line [0..<101]"
    by (simp only: stream_lines_def map_map comp_def) (simp del: upt_Suc add: concat_map_singleton)
  have "List.map_filter parse_frame (map frame_line [0..<101])
          = map (\<lambda>l. the (parse_frame l)) (map frame_line [0..<101])"
    using ok by (intro map_filter_all_Some) auto
  also have "\<dots> = map (\<lambda>k. \<lparr>frame_idx = k, mask_list = []\<rparr>) [0..<101]"
    using ok by (simp only: map_map comp_def) (intro map_cong refl, simp)
  finally show ?thesis
    by (simp only: applied_def sl)
qed

text \<open>
  C8 as claimed fails: in \<open>long_run\<close> the video frames are not loaded, so the total
  is 100, and the stream holds the records of frames 0 to 100. After the record of frame
  99 the progress is 100, while the store does not hold frame 100 yet; the run goes on to
  apply it.
\<close>

theorem full_progress_before_last_frame:
  "videoFrames session_state = []
   \<and> processingProgress (observed long_run ! 100) = 100
   \<and> masks (observed long_run ! 100) 100 = None
   \<and> masks (final long_run) 100 = Some \<lparr>frame_idx = 100, mask_list = []\<rparr>"
proof -
  let ?chunks = "map (\<lambda>k. frame_line k @ [newline]) [0..<101]"
  let ?recs = "map (\<lambda>k. \<lparr>frame_idx = k, mask_list = []\<rparr>) [0..<(101::nat)]"
  let ?s0 = "session_state\<lparr>isProcessing := True, processingProgress := 0\<rparr>"
  let ?v0 = "\<lparr>receivedFrames = 0, store = ?s0, seen = [], parse_errors = []\<rparr>"
  let ?v = "for_lines parse_frame floor_percent (total_frames session_state)
              (stream_lines ?chunks) ?v0"
  have ap: "List.map_filter parse_frame (stream_lines ?chunks) = ?recs"
    using applied_frame_lines by (simp only: applied_def)
  have len: "length ?recs = 101"
    by simp
  have tf: "total_frames session_state = 100"
    by (simp add: total_frames_def session_state_fields)
  have ob: "observed long_run = ?s0 # seen ?v @ [finish (store ?v)]"
    unfolding long_run_def by (simp only: guard_passes [OF guard_session_state] Let_def run.simps)
  have sn: "seen ?v = map (\<lambda>k. ?s0\<lparr>masks := foldl put_frame (masks ?s0) (take (Suc k) ?recs),
                                    processingProgress := min 100 (floor_percent (Suc k) 100)\<rparr>)
                        [0 ..< 101]"
    unfolding for_lines_snapshots ap tf by (simp del: upt_Suc)
  have "observed long_run ! 100 = seen ?v ! 99"
    unfolding ob sn by (simp add: nth_append del: upt_Suc)
  also have "\<dots> = ?s0\<lparr>masks := foldl put_frame (masks ?s0) (take 100 ?recs),
                        processingProgress := min 100 (floor_percent 100 100)\<rparr>"
    unfolding sn by (simp del: upt_Suc)
  finally have o: "observed long_run ! 100
      = ?s0\<lparr>masks := foldl put_frame (masks ?s0) (take 100 ?recs),
             processingProgress := min 100 (floor_percent 100 100)\<rparr>" .
  have p: "processingProgress (observed long_run ! 100) = 100"
    unfolding o by (simp add: floor_percent_def)
  have tk: "take 100 ?recs = map (\<lambda>k. \<lparr>frame_idx = k, mask_list = []\<rparr>) [0..<(100::nat)]"
    by (simp only: take_map take_upt) simp
  have "100 \<notin> frame_idx ` set (take 100 ?recs)"
    unfolding tk by auto
  then have "foldl put_frame (masks ?s0) (take 100 ?recs) 100 = masks ?s0 100"
    by (rule foldl_put_frame_other)
  then have n: "masks (observed long_run ! 100) 100 = None"
    unfolding o by (simp add: session_state_fields)
  have fm: "masks (final long_run) = foldl put_frame (masks session_state) ?recs"
    unfolding long_run_def
    using final_masks [OF guard_session_state, of parse_frame floor_percent ?chunks Closed]
    by (simp only: applied_frame_lines)
  have d: "distinct (map frame_idx ?recs)"
    by (simp add: comp_def del: upt_Suc)
  have "\<lparr>frame_idx = 100, mask_list = []\<rparr> \<in> set ?recs"
    by (simp del: upt_Suc) 
  from foldl_put_frame_distinct [OF d this, of "masks session_state"]
  have f: "masks (final long_run) 100 = Some \<lparr>frame_idx = 100, mask_list = []\<rparr>"
    unfolding fm by simp
  from p n f session_state_fields(5) show ?thesis
    by blast
qed

end
